theory Spec2Isabelle
  imports Main "HOL-Library.Word"
begin

section \<open>Time window primitives of Functions/FunctionsTimeWindow.h\<close>

text \<open>
  The header defines, per interval kind, a truncation primitive
  (\<open>ToStartOfTransform<kind>::execute\<close>) and an addition primitive
  (\<open>AddTime<kind>::execute\<close>).  The C++ integer types are modelled as machine words:
  \<open>Int64\<close> and \<open>UInt64\<close> are both \<open>64 word\<close> (the same bit pattern; \<open>sint\<close> reads
  it as two's complement, \<open>uint\<close> as unsigned), \<open>UInt32\<close> is \<open>32 word\<close>, \<open>UInt16\<close> is
  \<open>16 word\<close>.  Arithmetic on words wraps around, which is what the generated code
  does for the unsigned operations and, on the targets the program is built for,
  for the signed ones too.  A remainder by zero does not return in C++; it is the
  error value \<open>DivisionByZero\<close> here.

  The specialisations for Year, Quarter, Month, Week, Day, Hour, Minute and Second
  of the truncation, and for Year, Quarter and Month of the addition, only forward
  to \<open>DateLUTImpl\<close>, which is defined outside this header; they are not modelled.
\<close>

type_synonym Int64 = "64 word"
type_synonym UInt64 = "64 word"
type_synonym UInt32 = "32 word"
type_synonym UInt16 = "16 word"
type_synonym ExtendedDayNum = "32 word"

datatype error = DivisionByZero | NonPositiveInterval | IllegalArguments

datatype SubsecondKind = Millisecond | Microsecond | Nanosecond

text \<open>
  Modelled from the spec: \<open>DecimalUtils::scaleMultiplier<DateTime64>\<close> is declared
  outside this header.  The spec gives it as the decimal-scale service
  \<open>scaleMultiplier(scaleDigits)\<close>, the integer multiplier \<open>10^scaleDigits\<close>; its
  result type is the 64-bit native type of \<open>DateTime64\<close>.
\<close>

definition scaleMultiplier :: "UInt32 \<Rightarrow> Int64" where
  "scaleMultiplier n = 10 ^ unat n"

subsection \<open>Truncation: the \<open>TRANSFORM_SUBSECONDS\<close> specialisations\<close>

text \<open>
  \<open>val % delta\<close> has a signed left operand and an unsigned right operand, so the
  usual arithmetic conversions make it an unsigned remainder of the 64-bit pattern
  of \<open>val\<close>; \<open>mod\<close> on words is that unsigned remainder.  The same holds for
  \<open>t % (delta * multiplier)\<close>, where the product is unsigned and wraps.
  \<open>minus_remainder x d\<close> is the expression \<open>x - (x % d)\<close> that both branches of
  the macro end in, with the remainder by zero made explicit.
\<close>

definition minus_remainder :: "Int64 \<Rightarrow> UInt64 \<Rightarrow> error + Int64" where
  "minus_remainder val delta =
     (if delta = 0 then Inl DivisionByZero else Inr (val - (val mod delta)))"

definition TRANSFORM_SUBSECONDS :: "UInt32 \<Rightarrow> Int64 \<Rightarrow> UInt64 \<Rightarrow> UInt32 \<Rightarrow> error + Int64" where
  "TRANSFORM_SUBSECONDS DEF_SCALE t delta scale =
     (if scale \<le> DEF_SCALE then
        (let val = t * scaleMultiplier (DEF_SCALE - scale) in
         if delta = 1 then Inr val
         else minus_remainder val delta)
      else
        minus_remainder t (delta * scaleMultiplier (scale - DEF_SCALE)))"

fun DEF_SCALE_of :: "SubsecondKind \<Rightarrow> UInt32" where
  "DEF_SCALE_of Millisecond = 3"
| "DEF_SCALE_of Microsecond = 6"
| "DEF_SCALE_of Nanosecond = 9"

definition ToStartOfTransform :: "SubsecondKind \<Rightarrow> Int64 \<Rightarrow> UInt64 \<Rightarrow> UInt32 \<Rightarrow> error + Int64" where
  "ToStartOfTransform kind = TRANSFORM_SUBSECONDS (DEF_SCALE_of kind)"

subsection \<open>Addition: the \<open>AddTime\<close> specialisations\<close>

text \<open>
  \<open>AddTime<Week>\<close>: \<open>d\<close> is promoted and converted to \<open>UInt64\<close>, the sum is unsigned
  64-bit, and \<open>static_cast<Int32>\<close> keeps its low 32 bits.  The calendar argument
  is unnamed in the source and never read; its type is left open.
\<close>

definition AddTime_Week :: "UInt16 \<Rightarrow> UInt64 \<Rightarrow> 'lut \<Rightarrow> ExtendedDayNum" where
  "AddTime_Week d delta time_zone = ucast ((ucast d :: UInt64) + delta * 7)"

text \<open>
  \<open>ADD_TIME\<close>: \<open>t\<close> is converted to \<open>Int64\<close> (zero extension), the sum is signed
  64-bit, and \<open>static_cast<UInt32>\<close> keeps its low 32 bits.
\<close>

definition ADD_TIME :: "Int64 \<Rightarrow> UInt32 \<Rightarrow> Int64 \<Rightarrow> 'lut \<Rightarrow> UInt32" where
  "ADD_TIME INTERVAL t delta time_zone = ucast ((ucast t :: Int64) + delta * INTERVAL)"

definition AddTime_Day :: "UInt32 \<Rightarrow> Int64 \<Rightarrow> 'lut \<Rightarrow> UInt32" where
  "AddTime_Day = ADD_TIME 86400"

definition AddTime_Hour :: "UInt32 \<Rightarrow> Int64 \<Rightarrow> 'lut \<Rightarrow> UInt32" where
  "AddTime_Hour = ADD_TIME 3600"

definition AddTime_Minute :: "UInt32 \<Rightarrow> Int64 \<Rightarrow> 'lut \<Rightarrow> UInt32" where
  "AddTime_Minute = ADD_TIME 60"

definition AddTime_Second :: "UInt32 \<Rightarrow> Int64 \<Rightarrow> 'lut \<Rightarrow> UInt32" where
  "AddTime_Second = ADD_TIME 1"

definition ADD_SUBSECONDS :: "UInt32 \<Rightarrow> Int64 \<Rightarrow> UInt64 \<Rightarrow> UInt32 \<Rightarrow> Int64" where
  "ADD_SUBSECONDS DEF_SCALE t delta scale =
     (if scale < DEF_SCALE then t + delta * scaleMultiplier (DEF_SCALE - scale)
      else t + delta * scaleMultiplier (scale - DEF_SCALE))"

definition AddTime :: "SubsecondKind \<Rightarrow> Int64 \<Rightarrow> UInt64 \<Rightarrow> UInt32 \<Rightarrow> Int64" where
  "AddTime kind = ADD_SUBSECONDS (DEF_SCALE_of kind)"

subsection \<open>The quantities the properties are stated in\<close>

text \<open>
  The truncation primitive answers in the unit's native scale when the input scale
  is coarser or equal, and in the input scale when it is finer.  \<open>result_scale\<close> is
  that scale, \<open>rescaled\<close> is the timestamp as a mathematical integer in that scale,
  and \<open>width\<close> is the window size \<open>delta\<close> units as a mathematical integer in that
  scale.  \<open>delta\<close> is read as the signed 64-bit magnitude of the interval.
\<close>

definition result_scale :: "SubsecondKind \<Rightarrow> UInt32 \<Rightarrow> UInt32" where
  "result_scale kind scale = (if scale \<le> DEF_SCALE_of kind then DEF_SCALE_of kind else scale)"

definition rescaled :: "SubsecondKind \<Rightarrow> Int64 \<Rightarrow> UInt32 \<Rightarrow> int" where
  "rescaled kind t scale =
     (if scale \<le> DEF_SCALE_of kind then sint t * 10 ^ (unat (DEF_SCALE_of kind) - unat scale)
      else sint t)"

definition width :: "SubsecondKind \<Rightarrow> UInt64 \<Rightarrow> UInt32 \<Rightarrow> int" where
  "width kind delta scale =
     (if scale \<le> DEF_SCALE_of kind then sint delta
      else sint delta * 10 ^ (unat scale - unat (DEF_SCALE_of kind)))"

text \<open>
  The partition property at one input: the primitive returns a value \<open>r\<close> with
  \<open>r \<le> t < r + delta units\<close>, read over the integers in the scale of the result.
\<close>

definition partition_at :: "SubsecondKind \<Rightarrow> Int64 \<Rightarrow> UInt64 \<Rightarrow> UInt32 \<Rightarrow> bool" where
  "partition_at kind t delta scale =
     (case ToStartOfTransform kind t delta scale of
        Inl e \<Rightarrow> False
      | Inr r \<Rightarrow> sint r \<le> rescaled kind t scale \<and>
                 rescaled kind t scale < sint r + width kind delta scale)"

text \<open>
  Idempotence at one input: the primitive returns a value, and truncating that value
  again, at the scale it was returned in, returns it unchanged.
\<close>

definition idempotent_at :: "SubsecondKind \<Rightarrow> Int64 \<Rightarrow> UInt64 \<Rightarrow> UInt32 \<Rightarrow> bool" where
  "idempotent_at kind t delta scale =
     (case ToStartOfTransform kind t delta scale of
        Inl e \<Rightarrow> False
      | Inr r \<Rightarrow> ToStartOfTransform kind r delta (result_scale kind scale) = Inr r)"

text \<open>
  Addition/truncation consistency at one input: the primitive returns an aligned
  start \<open>r\<close>, and \<open>r\<close> advanced by one window is a fixed point of truncation.
\<close>

definition consistent_at :: "SubsecondKind \<Rightarrow> Int64 \<Rightarrow> UInt64 \<Rightarrow> UInt32 \<Rightarrow> bool" where
  "consistent_at kind t delta scale =
     (case ToStartOfTransform kind t delta scale of
        Inl e \<Rightarrow> False
      | Inr r \<Rightarrow>
          (let next = AddTime kind r delta (result_scale kind scale)
           in ToStartOfTransform kind next delta (result_scale kind scale) = Inr next))"

text \<open>
  The truncation rule in the words of the specification, over the mathematical
  integers: \<open>native\<close> is the unit's native scale, \<open>mod\<close> is the remainder of the
  integers (non-negative for a positive divisor).
\<close>

definition truncate_spec :: "nat \<Rightarrow> int \<Rightarrow> int \<Rightarrow> nat \<Rightarrow> int" where
  "truncate_spec native t delta input_scale =
     (if input_scale \<le> native then
        (let val = t * 10 ^ (native - input_scale) in
         if delta = 1 then val else val - (val mod delta))
      else t - (t mod (delta * 10 ^ (input_scale - native))))"

subsection \<open>The window function family\<close>

text \<open>
  The names of the family, as the header's enumeration lists them.
\<close>

datatype TimeWindowFunctionName =
  TUMBLE | TUMBLE_START | TUMBLE_END | HOP | HOP_START | HOP_END | WINDOW_ID

text \<open>
  Modelled from the spec: the header only declares
  \<open>TimeWindowImpl<type>::dispatchForColumns\<close>; its bodies, the check of the interval
  arguments and the encoding of a window id are defined elsewhere.  What follows is
  the specification's account of them (section 4.3 and the error conditions):
  \<^item> a window id is an opaque encoding of a window boundary \<open>(start, end)\<close> that can
    be decomposed back into it;
  \<^item> an interval used as a window size must be positive, otherwise the call is a
    user error reported before any row is evaluated;
  \<^item> \<open>TUMBLE(t, interval)\<close> has \<open>start = truncate(t, interval)\<close> and
    \<open>end = add(start, interval)\<close>;
  \<^item> \<open>HOP(t, hop, window)\<close> is the latest hop-aligned window of size \<open>window\<close> that
    contains \<open>t\<close>: \<open>start = truncate(t, hop)\<close>, \<open>end = add(start, window)\<close> (hop
    5 min, window 15 min, \<open>t\<close> = 12:07 gives 12:05 to 12:20);
  \<^item> the \<open>_START\<close> and \<open>_END\<close> forms take either the raw arguments, and return the
    bound of the window computed from them, or a previously computed window id, and
    return the bound decoded from it;
  \<^item> \<open>WINDOW_ID\<close> returns the boundary of \<open>TUMBLE\<close> or \<open>HOP\<close>, encoded.
  The truncation and addition primitives are parameters \<open>tr\<close> and \<open>ad\<close>, so that
  the account covers every interval kind; \<open>subsecond_truncate\<close> and
  \<open>subsecond_add\<close> are the primitives of this header for a sub-second kind and a
  timestamp column of a given scale.  A batch of rows is a list; the first row that
  fails aborts the batch.
\<close>

datatype 'ts WindowId = WindowId "'ts \<times> 'ts"

fun decode :: "'ts WindowId \<Rightarrow> 'ts \<times> 'ts" where
  "decode (WindowId boundary) = boundary"

datatype 'ts Arguments =
  TimeInterval "'ts list" Int64
| TimeHopWindow "'ts list" Int64 Int64
| PreviousId "'ts WindowId list"

datatype 'ts Column =
  Boundaries "('ts \<times> 'ts) list"
| Bounds "'ts list"
| Ids "'ts WindowId list"

definition check_interval :: "Int64 \<Rightarrow> error + UInt64" where
  "check_interval delta = (if sint delta \<le> 0 then Inl NonPositiveInterval else Inr delta)"

fun each_row :: "('a \<Rightarrow> error + 'b) \<Rightarrow> 'a list \<Rightarrow> error + 'b list" where
  "each_row f [] = Inr []"
| "each_row f (x # xs) =
     (case f x of
        Inl e \<Rightarrow> Inl e
      | Inr y \<Rightarrow> (case each_row f xs of Inl e \<Rightarrow> Inl e | Inr ys \<Rightarrow> Inr (y # ys)))"

definition tumble_row ::
  "(UInt64 \<Rightarrow> 'ts \<Rightarrow> error + 'ts) \<Rightarrow> (UInt64 \<Rightarrow> 'ts \<Rightarrow> 'ts) \<Rightarrow> UInt64 \<Rightarrow> 'ts \<Rightarrow> error + 'ts \<times> 'ts" where
  "tumble_row tr ad interval t =
     (case tr interval t of Inl e \<Rightarrow> Inl e | Inr start \<Rightarrow> Inr (start, ad interval start))"

definition hop_row ::
  "(UInt64 \<Rightarrow> 'ts \<Rightarrow> error + 'ts) \<Rightarrow> (UInt64 \<Rightarrow> 'ts \<Rightarrow> 'ts) \<Rightarrow> UInt64 \<Rightarrow> UInt64 \<Rightarrow> 'ts
     \<Rightarrow> error + 'ts \<times> 'ts" where
  "hop_row tr ad hop window t =
     (case tr hop t of Inl e \<Rightarrow> Inl e | Inr start \<Rightarrow> Inr (start, ad window start))"

definition tumble_windows ::
  "(UInt64 \<Rightarrow> 'ts \<Rightarrow> error + 'ts) \<Rightarrow> (UInt64 \<Rightarrow> 'ts \<Rightarrow> 'ts) \<Rightarrow> 'ts list \<Rightarrow> Int64
     \<Rightarrow> error + ('ts \<times> 'ts) list" where
  "tumble_windows tr ad ts interval =
     (case check_interval interval of
        Inl e \<Rightarrow> Inl e
      | Inr d \<Rightarrow> each_row (tumble_row tr ad d) ts)"

definition hop_windows ::
  "(UInt64 \<Rightarrow> 'ts \<Rightarrow> error + 'ts) \<Rightarrow> (UInt64 \<Rightarrow> 'ts \<Rightarrow> 'ts) \<Rightarrow> 'ts list \<Rightarrow> Int64 \<Rightarrow> Int64
     \<Rightarrow> error + ('ts \<times> 'ts) list" where
  "hop_windows tr ad ts hop window =
     (case check_interval hop of
        Inl e \<Rightarrow> Inl e
      | Inr h \<Rightarrow>
          (case check_interval window of
             Inl e \<Rightarrow> Inl e
           | Inr w \<Rightarrow> each_row (hop_row tr ad h w) ts))"

definition as_column :: "('a \<Rightarrow> 'ts Column) \<Rightarrow> error + 'a \<Rightarrow> error + 'ts Column" where
  "as_column make result = (case result of Inl e \<Rightarrow> Inl e | Inr x \<Rightarrow> Inr (make x))"

fun dispatchForColumns ::
  "(UInt64 \<Rightarrow> 'ts \<Rightarrow> error + 'ts) \<Rightarrow> (UInt64 \<Rightarrow> 'ts \<Rightarrow> 'ts) \<Rightarrow> TimeWindowFunctionName
     \<Rightarrow> 'ts Arguments \<Rightarrow> error + 'ts Column" where
  "dispatchForColumns tr ad TUMBLE (TimeInterval ts interval) =
     as_column Boundaries (tumble_windows tr ad ts interval)"
| "dispatchForColumns tr ad TUMBLE_START (TimeInterval ts interval) =
     as_column (\<lambda>ws. Bounds (map fst ws)) (tumble_windows tr ad ts interval)"
| "dispatchForColumns tr ad TUMBLE_START (PreviousId ids) =
     Inr (Bounds (map (\<lambda>i. fst (decode i)) ids))"
| "dispatchForColumns tr ad TUMBLE_END (TimeInterval ts interval) =
     as_column (\<lambda>ws. Bounds (map snd ws)) (tumble_windows tr ad ts interval)"
| "dispatchForColumns tr ad TUMBLE_END (PreviousId ids) =
     Inr (Bounds (map (\<lambda>i. snd (decode i)) ids))"
| "dispatchForColumns tr ad HOP (TimeHopWindow ts hop window) =
     as_column Boundaries (hop_windows tr ad ts hop window)"
| "dispatchForColumns tr ad HOP_START (TimeHopWindow ts hop window) =
     as_column (\<lambda>ws. Bounds (map fst ws)) (hop_windows tr ad ts hop window)"
| "dispatchForColumns tr ad HOP_START (PreviousId ids) =
     Inr (Bounds (map (\<lambda>i. fst (decode i)) ids))"
| "dispatchForColumns tr ad HOP_END (TimeHopWindow ts hop window) =
     as_column (\<lambda>ws. Bounds (map snd ws)) (hop_windows tr ad ts hop window)"
| "dispatchForColumns tr ad HOP_END (PreviousId ids) =
     Inr (Bounds (map (\<lambda>i. snd (decode i)) ids))"
| "dispatchForColumns tr ad WINDOW_ID (TimeInterval ts interval) =
     as_column (\<lambda>ws. Ids (map WindowId ws)) (tumble_windows tr ad ts interval)"
| "dispatchForColumns tr ad WINDOW_ID (TimeHopWindow ts hop window) =
     as_column (\<lambda>ws. Ids (map WindowId ws)) (hop_windows tr ad ts hop window)"
| "dispatchForColumns tr ad _ _ = Inl IllegalArguments"

text \<open>
  A bound recovered through a window id: compute the id from the raw arguments,
  then hand it to the \<open>_START\<close> or \<open>_END\<close> form.
\<close>

definition through_window_id ::
  "(UInt64 \<Rightarrow> 'ts \<Rightarrow> error + 'ts) \<Rightarrow> (UInt64 \<Rightarrow> 'ts \<Rightarrow> 'ts) \<Rightarrow> TimeWindowFunctionName
     \<Rightarrow> 'ts Arguments \<Rightarrow> error + 'ts Column" where
  "through_window_id tr ad bound args =
     (case dispatchForColumns tr ad WINDOW_ID args of
        Inl e \<Rightarrow> Inl e
      | Inr (Ids ids) \<Rightarrow> dispatchForColumns tr ad bound (PreviousId ids)
      | Inr _ \<Rightarrow> Inl IllegalArguments)"

definition subsecond_truncate :: "SubsecondKind \<Rightarrow> UInt32 \<Rightarrow> UInt64 \<Rightarrow> Int64 \<Rightarrow> error + Int64" where
  "subsecond_truncate kind scale delta t = ToStartOfTransform kind t delta scale"

definition subsecond_add :: "SubsecondKind \<Rightarrow> UInt32 \<Rightarrow> UInt64 \<Rightarrow> Int64 \<Rightarrow> Int64" where
  "subsecond_add kind scale delta t = AddTime kind t delta (result_scale kind scale)"

section \<open>Reading words as integers\<close>

lemma scaleMultiplier_sub:
  "a \<le> b \<Longrightarrow> scaleMultiplier (b - a) = 10 ^ (unat b - unat a)"
  by (simp add: scaleMultiplier_def unat_sub)

lemma sint_wrap: "sint (word_of_int x :: 64 word) = signed_take_bit 63 x"
  by (simp add: sint_sbintrunc')

lemma uint_eq_sint_mod: "uint (w :: 64 word) = sint w mod 2 ^ 64"
  by (simp add: uint_sint take_bit_eq_mod)

lemma sint_bounds: "- (2 ^ 63) \<le> sint (w :: 64 word)" "sint (w :: 64 word) < 2 ^ 63"
  using sint_ge [of w] sint_lt [of w] by simp_all

lemma sint_eq_uint:
  fixes w :: "64 word"
  assumes "uint w < 2 ^ 63"
  shows "sint w = uint w"
proof -
  have "sint w = signed_take_bit 63 (uint w)"
    by (simp add: sint_uint)
  also have "\<dots> = uint w"
  proof (rule signed_take_bit_int_eq_self)
    have "- (2 ^ 63) \<le> (0 :: int)" by simp
    also have "0 \<le> uint w" by simp
    finally show "- (2 ^ 63) \<le> uint w" .
    show "uint w < 2 ^ 63" by (rule assms)
  qed
  finally show ?thesis .
qed

lemma uint_eq_sint:
  fixes w :: "64 word"
  assumes "0 \<le> sint w"
  shows "uint w = sint w"
  using assms sint_bounds(2) [of w] by (simp add: uint_eq_sint_mod)

lemma positive_nonzero:
  fixes d :: "64 word"
  assumes "0 < sint d"
  shows "d \<noteq> 0" "uint d = sint d"
  using assms by (auto simp: uint_eq_sint)

lemma uint_low32: "uint (ucast (word_of_int k :: 64 word) :: 32 word) = k mod 2 ^ 32"
proof -
  have "uint (ucast (word_of_int k :: 64 word) :: 32 word) = take_bit 32 (take_bit 64 k)"
    by (simp add: unsigned_ucast_eq uint_word_of_int_eq)
  also have "\<dots> = take_bit 32 k"
    by simp
  finally show ?thesis
    by (simp add: take_bit_eq_mod)
qed

lemma sint_low32: "sint (ucast (word_of_int k :: 64 word) :: 32 word) = signed_take_bit 31 k"
  by (simp add: sint_uint unsigned_ucast_eq uint_word_of_int_eq signed_take_bit_take_bit)

lemma sint_product:
  fixes t :: "64 word"
  assumes "- (2 ^ 63) \<le> sint t * 10 ^ k" "sint t * 10 ^ k < 2 ^ 63"
  shows "sint (t * 10 ^ k) = sint t * 10 ^ k"
proof -
  have "t * 10 ^ k = word_of_int (sint t * 10 ^ k)"
    by simp
  then have "sint (t * 10 ^ k) = signed_take_bit 63 (sint t * 10 ^ k)"
    by (simp only: sint_wrap)
  also have "\<dots> = sint t * 10 ^ k"
    using assms by (rule signed_take_bit_int_eq_self)
  finally show ?thesis .
qed

lemma uint_product:
  fixes d :: "64 word"
  assumes "0 < sint d" "sint d * 10 ^ k < 2 ^ 64"
  shows "uint (d * 10 ^ k) = sint d * 10 ^ k"
proof -
  have "d * 10 ^ k = word_of_int (sint d * 10 ^ k)"
    by simp
  then have "uint (d * 10 ^ k) = (sint d * 10 ^ k) mod 2 ^ 64"
    by (simp only: uint_word_of_int) simp
  also have "\<dots> = sint d * 10 ^ k"
    using assms by simp
  finally show ?thesis .
qed

section \<open>The expression \<open>x - (x % d)\<close>\<close>

text \<open>
  On the unsigned reading the subtraction never borrows, the result is a multiple
  of the modulus, and so it is a fixed point of the same operation.
\<close>

lemma uint_floor:
  fixes v m :: "64 word"
  shows "uint (v - v mod m) = uint v - uint v mod uint m"
proof -
  have "uint (v mod m) \<le> uint v"
    by (simp add: uint_mod_distrib zmod_le_nonneg_dividend)
  then have "uint (v - v mod m) = uint v - uint (v mod m)"
    by (simp only: uint_sub_lem)
  then show ?thesis
    by (simp add: uint_mod_distrib)
qed

lemma floor_aligned:
  fixes v m :: "64 word"
  shows "(v - v mod m) mod m = 0"
proof -
  have "uint ((v - v mod m) mod m) = (uint v - uint v mod uint m) mod uint m"
    by (simp only: uint_mod_distrib uint_floor)
  also have "\<dots> = 0"
    by (simp add: minus_mod_eq_mult_div)
  finally show ?thesis
    by (simp add: word_uint_eq_iff)
qed

text \<open>The signed reading, when the subtraction stays above the least \<open>Int64\<close>.\<close>

lemma sint_floor:
  fixes v m :: "64 word"
  assumes m: "m \<noteq> 0" and lo: "- (2 ^ 63) \<le> sint v - uint m"
  shows "sint (v - v mod m) = sint v - uint v mod uint m"
proof -
  have mpos: "0 < uint m"
    using m by (simp add: word_uint_eq_iff order_less_le)
  have r: "0 \<le> uint v mod uint m" "uint v mod uint m < uint m"
    using mpos by simp_all
  have "v - v mod m = word_of_int (sint v - uint (v mod m))"
    by simp
  then have "sint (v - v mod m) = signed_take_bit 63 (sint v - uint v mod uint m)"
    by (simp only: sint_wrap uint_mod_distrib)
  also have "\<dots> = sint v - uint v mod uint m"
    using r lo sint_bounds(2) [of v]
    by (intro signed_take_bit_int_eq_self) linarith+
  finally show ?thesis .
qed

text \<open>The signed reading on a non-negative value: the remainder of the integers.\<close>

lemma sint_floor_nonneg:
  fixes v m :: "64 word"
  assumes "0 \<le> sint v"
  shows "sint (v - v mod m) = sint v - sint v mod uint m"
proof -
  have uv: "uint v = sint v"
    using assms by (rule uint_eq_sint)
  have u: "uint (v - v mod m) = uint v - uint v mod uint m"
    by (rule uint_floor)
  have "0 \<le> uint (v mod m)"
    by simp
  then have "0 \<le> uint v mod uint m"
    by (simp only: uint_mod_distrib)
  then have "uint (v - v mod m) \<le> uint v"
    unfolding u by linarith
  also have "uint v < 2 ^ 63"
    unfolding uv by (rule sint_bounds)
  finally have "sint (v - v mod m) = uint (v - v mod m)"
    by (rule sint_eq_uint)
  then show ?thesis
    by (simp only: u uv)
qed

section \<open>The two branches of the truncation\<close>

lemma ToStart_le:
  assumes "scale \<le> DEF_SCALE_of kind"
  shows "ToStartOfTransform kind t delta scale =
           (if delta = 1 then Inr (t * 10 ^ (unat (DEF_SCALE_of kind) - unat scale))
            else minus_remainder (t * 10 ^ (unat (DEF_SCALE_of kind) - unat scale)) delta)"
  using assms by (simp add: ToStartOfTransform_def TRANSFORM_SUBSECONDS_def scaleMultiplier_sub)

lemma ToStart_gt:
  assumes "\<not> scale \<le> DEF_SCALE_of kind"
  shows "ToStartOfTransform kind t delta scale =
           minus_remainder t (delta * 10 ^ (unat scale - unat (DEF_SCALE_of kind)))"
  using assms by (simp add: ToStartOfTransform_def TRANSFORM_SUBSECONDS_def scaleMultiplier_sub)

lemmas eval_defs = ToStartOfTransform_def TRANSFORM_SUBSECONDS_def minus_remainder_def
  scaleMultiplier_def AddTime_def ADD_SUBSECONDS_def result_scale_def rescaled_def width_def
  partition_at_def idempotent_at_def consistent_at_def truncate_spec_def Let_def

section \<open>Addition\<close>

lemma ADD_SUBSECONDS_sint:
  "sint (ADD_SUBSECONDS n t delta scale) =
     signed_take_bit 63
       (sint t + sint delta * 10 ^ (if scale < n then unat n - unat scale else unat scale - unat n))"
proof (cases "scale < n")
  case True
  then have "ADD_SUBSECONDS n t delta scale =
      word_of_int (sint t + sint delta * 10 ^ (unat n - unat scale))"
    by (simp add: ADD_SUBSECONDS_def scaleMultiplier_sub)
  then show ?thesis
    using True by (simp only: sint_wrap if_True)
next
  case False
  then have "n \<le> scale"
    by simp
  then have "ADD_SUBSECONDS n t delta scale =
      word_of_int (sint t + sint delta * 10 ^ (unat scale - unat n))"
    using False by (simp add: ADD_SUBSECONDS_def scaleMultiplier_sub)
  then show ?thesis
    using False by (simp only: sint_wrap if_False)
qed

lemma ADD_TIME_uint:
  "uint (ADD_TIME i t delta tz) = (uint t + sint delta * sint i) mod 2 ^ 32"
proof -
  have "(ucast t :: 64 word) + delta * i = word_of_int (uint t + sint delta * sint i)"
    by simp
  then have "ADD_TIME i t delta tz =
      ucast (word_of_int (uint t + sint delta * sint i) :: 64 word)"
    by (simp only: ADD_TIME_def)
  then show ?thesis
    by (simp only: uint_low32)
qed

lemma ADD_TIME_ignores_time_zone: "ADD_TIME i t delta tz = ADD_TIME i t delta tz'"
  by (simp add: ADD_TIME_def)

text \<open>
  C3.  Sub-second addition.  For every timestamp \<open>t\<close>, every \<open>delta\<close> and every input
  scale, the Millisecond/Microsecond/Nanosecond addition returns
  \<open>t + delta * 10^(native - scale)\<close> when the input scale is below the native one
  and \<open>t + delta * 10^(scale - native)\<close> otherwise, as a signed 64-bit value:
  \<open>signed_take_bit 63\<close> is the two's complement wrap-around into the \<open>Int64\<close> range
  and the identity inside it.  At the native scale the result is \<open>t + delta\<close>.
\<close>

theorem AddTime_subseconds_value:
  "sint (AddTime kind t delta scale) =
     signed_take_bit 63
       (sint t + sint delta *
          10 ^ (if scale < DEF_SCALE_of kind then unat (DEF_SCALE_of kind) - unat scale
                else unat scale - unat (DEF_SCALE_of kind)))
   \<and> AddTime kind t delta (DEF_SCALE_of kind) = t + delta"
proof
  show "sint (AddTime kind t delta scale) =
     signed_take_bit 63
       (sint t + sint delta *
          10 ^ (if scale < DEF_SCALE_of kind then unat (DEF_SCALE_of kind) - unat scale
                else unat scale - unat (DEF_SCALE_of kind)))"
    unfolding AddTime_def by (rule ADD_SUBSECONDS_sint)
  show "AddTime kind t delta (DEF_SCALE_of kind) = t + delta"
    by (simp add: AddTime_def ADD_SUBSECONDS_def scaleMultiplier_def)
qed

text \<open>
  C6.  Day/Hour/Minute/Second addition.  For every 32-bit seconds timestamp \<open>t\<close> and
  every signed 64-bit \<open>delta\<close> the result is \<open>t + delta * unit_seconds\<close> modulo
  \<open>2^32\<close>, with \<open>unit_seconds\<close> 86400, 3600, 60 and 1; the function is total, and
  its result is the same for any two time zone arguments.
\<close>

theorem AddTime_seconds_wraparound:
  "uint (AddTime_Day t delta tz) = (uint t + sint delta * 86400) mod 2 ^ 32
   \<and> uint (AddTime_Hour t delta tz) = (uint t + sint delta * 3600) mod 2 ^ 32
   \<and> uint (AddTime_Minute t delta tz) = (uint t + sint delta * 60) mod 2 ^ 32
   \<and> uint (AddTime_Second t delta tz) = (uint t + sint delta * 1) mod 2 ^ 32
   \<and> AddTime_Day t delta tz = AddTime_Day t delta tz'
   \<and> AddTime_Hour t delta tz = AddTime_Hour t delta tz'
   \<and> AddTime_Minute t delta tz = AddTime_Minute t delta tz'
   \<and> AddTime_Second t delta tz = AddTime_Second t delta tz'"
proof -
  have "uint (AddTime_Day t delta tz) = (uint t + sint delta * 86400) mod 2 ^ 32"
    unfolding AddTime_Day_def by (simp only: ADD_TIME_uint) simp
  moreover have "uint (AddTime_Hour t delta tz) = (uint t + sint delta * 3600) mod 2 ^ 32"
    unfolding AddTime_Hour_def by (simp only: ADD_TIME_uint) simp
  moreover have "uint (AddTime_Minute t delta tz) = (uint t + sint delta * 60) mod 2 ^ 32"
    unfolding AddTime_Minute_def by (simp only: ADD_TIME_uint) simp
  moreover have "uint (AddTime_Second t delta tz) = (uint t + sint delta * 1) mod 2 ^ 32"
    unfolding AddTime_Second_def by (simp only: ADD_TIME_uint) simp
  moreover have "AddTime_Day t delta tz = AddTime_Day t delta tz'"
    unfolding AddTime_Day_def by (rule ADD_TIME_ignores_time_zone)
  moreover have "AddTime_Hour t delta tz = AddTime_Hour t delta tz'"
    unfolding AddTime_Hour_def by (rule ADD_TIME_ignores_time_zone)
  moreover have "AddTime_Minute t delta tz = AddTime_Minute t delta tz'"
    unfolding AddTime_Minute_def by (rule ADD_TIME_ignores_time_zone)
  moreover have "AddTime_Second t delta tz = AddTime_Second t delta tz'"
    unfolding AddTime_Second_def by (rule ADD_TIME_ignores_time_zone)
  ultimately show ?thesis
    by (intro conjI)
qed

text \<open>
  C7.  Week addition.  For every day number \<open>d\<close> and every \<open>delta\<close> (a negative
  count being its 64-bit two's complement pattern) the result is \<open>d + delta * 7\<close>
  wrapped into the signed 32-bit range of \<open>ExtendedDayNum\<close>.  The function is
  total, returns whatever the wrap-around gives without a range check, and its
  result is the same for any two calendar arguments.
\<close>

theorem AddTime_Week_wraparound:
  "sint (AddTime_Week d delta tz) = signed_take_bit 31 (uint d + sint delta * 7)
   \<and> AddTime_Week d delta tz = AddTime_Week d delta tz'"
proof
  have "(ucast d :: 64 word) + delta * 7 = word_of_int (uint d + sint delta * 7)"
    by simp
  then have "AddTime_Week d delta tz = ucast (word_of_int (uint d + sint delta * 7) :: 64 word)"
    by (simp only: AddTime_Week_def)
  then show "sint (AddTime_Week d delta tz) = signed_take_bit 31 (uint d + sint delta * 7)"
    by (simp only: sint_low32)
  show "AddTime_Week d delta tz = AddTime_Week d delta tz'"
    by (simp add: AddTime_Week_def)
qed

section \<open>Truncation\<close>

text \<open>
  C10.  The \<open>delta == 1\<close> fast path preserves the semantics.  For every value,
  \<open>val - (val % 1)\<close> is \<open>val\<close>, so the primitive with its special case is the same
  function as the general formula alone, at every \<open>delta\<close> and in particular at 1.
\<close>

theorem fast_path_preserves_semantics:
  "minus_remainder val 1 = Inr val
   \<and> ToStartOfTransform kind t delta scale =
     (if scale \<le> DEF_SCALE_of kind
      then minus_remainder (t * scaleMultiplier (DEF_SCALE_of kind - scale)) delta
      else minus_remainder t (delta * scaleMultiplier (scale - DEF_SCALE_of kind)))"
  by (simp add: ToStartOfTransform_def TRANSFORM_SUBSECONDS_def minus_remainder_def Let_def)

text \<open>
  C1, as stated, fails where the 64-bit arithmetic wraps: at the least \<open>Int64\<close>
  with \<open>delta = 3\<close> milliseconds the subtraction wraps to \<open>2^63 - 2\<close>, which is
  above \<open>t\<close>.
\<close>

theorem partition_fails_at_least_Int64:
  "ToStartOfTransform Millisecond (- 9223372036854775808) 3 3 = Inr 9223372036854775806
   \<and> \<not> partition_at Millisecond (- 9223372036854775808) 3 3"
  by (simp add: eval_defs)

text \<open>
  C1, amended.  Partition property of the sub-second truncation.  For every
  timestamp \<open>t\<close>, negative ones included, every positive \<open>delta\<close> and every input
  scale: if \<open>t\<close> in the scale of the result fits in \<open>Int64\<close> and lies at least one
  window above the least \<open>Int64\<close>, the primitive returns a value \<open>r\<close> with
  \<open>r \<le> t < r + delta units\<close>, all three read in the scale of the result.
\<close>

theorem ToStartOfTransform_partition:
  assumes d: "0 < sint delta"
    and hi: "rescaled kind t scale < 2 ^ 63"
    and lo: "- (2 ^ 63) \<le> rescaled kind t scale - width kind delta scale"
  shows "partition_at kind t delta scale"
proof (cases "scale \<le> DEF_SCALE_of kind")
  case True
  define k where "k = unat (DEF_SCALE_of kind) - unat scale"
  define val :: "64 word" where "val = t * 10 ^ k"
  have T: "rescaled kind t scale = sint t * 10 ^ k" and W: "width kind delta scale = sint delta"
    using True by (simp_all add: rescaled_def width_def k_def)
  have lo': "- (2 ^ 63) \<le> sint t * 10 ^ k"
    using lo d unfolding T W by linarith
  have sv: "sint val = sint t * 10 ^ k"
    unfolding val_def using lo' hi [unfolded T] by (rule sint_product)
  show ?thesis
  proof (cases "delta = 1")
    case True
    then show ?thesis
      using \<open>scale \<le> DEF_SCALE_of kind\<close> sv
      by (simp add: partition_at_def ToStart_le rescaled_def width_def k_def val_def)
  next
    case False
    have nz: "delta \<noteq> 0" and ud: "uint delta = sint delta"
      using d by (rule positive_nonzero)+
    have "- (2 ^ 63) \<le> sint val - uint delta"
      using lo unfolding T W sv ud .
    with nz have "sint (val - val mod delta) = sint val - uint val mod uint delta"
      by (rule sint_floor)
    moreover have "0 \<le> uint val mod uint delta" "uint val mod uint delta < uint delta"
      using d ud by simp_all
    ultimately have "sint (val - val mod delta) \<le> sint t * 10 ^ k"
      "sint t * 10 ^ k < sint (val - val mod delta) + sint delta"
      unfolding sv ud by linarith+
    then show ?thesis
      using \<open>scale \<le> DEF_SCALE_of kind\<close> False nz
      by (simp add: partition_at_def ToStart_le minus_remainder_def T W k_def val_def)
  qed
next
  case False
  define k where "k = unat scale - unat (DEF_SCALE_of kind)"
  define m :: "64 word" where "m = delta * 10 ^ k"
  have T: "rescaled kind t scale = sint t" and W: "width kind delta scale = sint delta * 10 ^ k"
    using False by (simp_all add: rescaled_def width_def k_def)
  have "sint delta * 10 ^ k \<le> sint t + 2 ^ 63"
    using lo unfolding T W by linarith
  then have M: "sint delta * 10 ^ k < 2 ^ 64"
    using sint_bounds(2) [of t] by simp
  have um: "uint m = sint delta * 10 ^ k"
    unfolding m_def using d M by (rule uint_product)
  have pos: "0 < sint delta * 10 ^ k"
    using d by simp
  then have nz: "m \<noteq> 0"
    using um by auto
  have "- (2 ^ 63) \<le> sint t - uint m"
    using lo unfolding T W um .
  with nz have "sint (t - t mod m) = sint t - uint t mod uint m"
    by (rule sint_floor)
  moreover have "0 \<le> uint t mod uint m" "uint t mod uint m < uint m"
    using pos um by simp_all
  ultimately have "sint (t - t mod m) \<le> sint t"
    "sint t < sint (t - t mod m) + sint delta * 10 ^ k"
    unfolding um by linarith+
  then show ?thesis
    using False nz
    by (simp add: partition_at_def ToStart_gt minus_remainder_def T W k_def m_def)
qed

text \<open>
  The same at a timestamp before the epoch: 1500 microseconds before it, windows of
  2 milliseconds, on a microsecond column.
\<close>

theorem ToStartOfTransform_partition_witness:
  "0 < sint (2 :: UInt64) \<and> rescaled Millisecond (- 1500) 6 < 2 ^ 63 \<and>
   - (2 ^ 63) \<le> rescaled Millisecond (- 1500) 6 - width Millisecond 2 6 \<and>
   partition_at Millisecond (- 1500) 2 6"
  using ToStartOfTransform_partition
    [where delta = 2 and kind = Millisecond and t = "- 1500" and scale = 6]
  by (simp add: rescaled_def width_def)

text \<open>
  C2.  The sub-second truncation algorithm asks, for every signed 64-bit timestamp,
  for \<open>val - (val mod delta)\<close> with \<open>val = t * 10^(native - scale)\<close> when the input
  scale is at most the native one, and for \<open>t - (t mod (delta * 10^(scale - native)))\<close>
  otherwise: the start of the window, a multiple of its width.  The code breaks it
  before the epoch, in both branches, because the remainder is taken of the unsigned
  64-bit pattern of the value: for \<open>t = -1\<close> and \<open>delta = 3\<close> at the native scale it
  returns \<open>-1\<close> where the rule gives \<open>-3\<close>, and for \<open>t = -1500\<close> microseconds and
  windows of 2 milliseconds it returns \<open>-1616\<close> where the rule gives \<open>-2000\<close>.
\<close>

theorem truncate_spec_fails_before_epoch:
  "ToStartOfTransform Millisecond (- 1) 3 3 = Inr (- 1)
   \<and> truncate_spec 3 (- 1) 3 3 = - 3
   \<and> ToStartOfTransform Millisecond (- 1500) 2 6 = Inr (- 1616)
   \<and> truncate_spec 3 (- 1500) 2 6 = - 2000
   \<and> \<not> (\<exists>r. ToStartOfTransform Millisecond (- 1) 3 3 = Inr r \<and>
          sint r = truncate_spec (unat (DEF_SCALE_of Millisecond)) (sint (- 1 :: Int64))
                     (sint (3 :: UInt64)) (unat (3 :: UInt32)))"
  by (simp add: eval_defs)

text \<open>
  From the epoch on the code does compute the rule: for a timestamp \<open>t \<ge> 0\<close> and
  a positive \<open>delta\<close>, when the products stay in range, the primitive returns the
  value the rule gives over the integers.  The divergence above is confined to
  timestamps before the epoch.
\<close>

lemma agrees_with_truncate_spec_from_epoch:
  assumes d: "0 < sint delta" and t: "0 \<le> sint t"
    and le: "scale \<le> DEF_SCALE_of kind \<longrightarrow>
               sint t * 10 ^ (unat (DEF_SCALE_of kind) - unat scale) < 2 ^ 63"
    and gt: "DEF_SCALE_of kind < scale \<longrightarrow>
               sint delta * 10 ^ (unat scale - unat (DEF_SCALE_of kind)) < 2 ^ 64"
  shows "\<exists>r. ToStartOfTransform kind t delta scale = Inr r \<and>
             sint r = truncate_spec (unat (DEF_SCALE_of kind)) (sint t) (sint delta) (unat scale)"
proof (cases "scale \<le> DEF_SCALE_of kind")
  case True
  define k where "k = unat (DEF_SCALE_of kind) - unat scale"
  define val :: "64 word" where "val = t * 10 ^ k"
  have nat_le: "unat scale \<le> unat (DEF_SCALE_of kind)"
    using True by (simp add: word_le_nat_alt)
  have "0 \<le> sint t * 10 ^ k"
    using t by simp
  moreover have "- (2 ^ 63) \<le> (0 :: int)"
    by simp
  ultimately have "- (2 ^ 63) \<le> sint t * 10 ^ k"
    by (rule order_trans [rotated])
  moreover have "sint t * 10 ^ k < 2 ^ 63"
    using le True by (simp add: k_def)
  ultimately have sv: "sint val = sint t * 10 ^ k"
    unfolding val_def by (rule sint_product)
  have d1: "delta = 1 \<longleftrightarrow> sint delta = 1"
  proof
    assume "sint delta = 1"
    moreover have "delta = word_of_int (sint delta)"
      by simp
    ultimately show "delta = 1"
      by simp
  qed simp
  show ?thesis
  proof (cases "delta = 1")
    case True
    then show ?thesis
      using \<open>scale \<le> DEF_SCALE_of kind\<close> nat_le sv
      by (simp add: ToStart_le truncate_spec_def k_def val_def)
  next
    case False
    have nz: "delta \<noteq> 0" and ud: "uint delta = sint delta"
      using d by (rule positive_nonzero)+
    have "0 \<le> sint val"
      using sv t by simp
    then have "sint (val - val mod delta) = sint val - sint val mod uint delta"
      by (rule sint_floor_nonneg)
    then show ?thesis
      using \<open>scale \<le> DEF_SCALE_of kind\<close> False nz nat_le d1
      by (simp add: ToStart_le minus_remainder_def truncate_spec_def Let_def sv ud
          flip: k_def val_def)
  qed
next
  case False
  define k where "k = unat scale - unat (DEF_SCALE_of kind)"
  define m :: "64 word" where "m = delta * 10 ^ k"
  have nat_gt: "\<not> unat scale \<le> unat (DEF_SCALE_of kind)"
    using False by (simp add: word_le_nat_alt)
  have "sint delta * 10 ^ k < 2 ^ 64"
    using gt False by (simp add: k_def)
  with d have um: "uint m = sint delta * 10 ^ k"
    unfolding m_def by (rule uint_product)
  have "0 < sint delta * 10 ^ k"
    using d by simp
  then have nz: "m \<noteq> 0"
    using um by auto
  have "sint (t - t mod m) = sint t - sint t mod uint m"
    using t by (rule sint_floor_nonneg)
  then show ?thesis
    using False nz nat_gt
    by (simp add: ToStart_gt minus_remainder_def truncate_spec_def um flip: k_def m_def)
qed

text \<open>
  The boundary scenario of the specification: a microsecond column, windows of 500
  milliseconds, \<open>t = 1620000123456789\<close>.
\<close>

lemma agrees_with_truncate_spec_example:
  "0 < sint (500 :: UInt64) \<and> 0 \<le> sint (1620000123456789 :: Int64) \<and>
   (\<exists>r. ToStartOfTransform Millisecond 1620000123456789 500 6 = Inr r \<and>
        sint r = 1620000123000000)"
  using agrees_with_truncate_spec_from_epoch
    [where delta = 500 and t = 1620000123456789 and scale = 6 and kind = Millisecond]
  by (simp add: truncate_spec_def)

lemma modulus_nonzero:
  fixes delta :: "64 word"
  assumes "\<not> 2 ^ 64 dvd sint delta * 10 ^ k"
  shows "delta * 10 ^ k \<noteq> 0"
proof -
  have "delta * 10 ^ k = word_of_int (sint delta * 10 ^ k)"
    by simp
  with assms show ?thesis
    by (simp only: word_of_int_eq_0_iff) simp
qed

text \<open>
  C4.  Idempotence asks, for every timestamp and every positive \<open>delta\<close>, that
  truncation returns a value and that truncating it again returns the same value.
  The code breaks it where it does not return at all: on a column of scale 5 a
  window of \<open>2^62\<close> milliseconds gives the modulus \<open>2^62 * 100\<close>, which wraps to 0
  modulo \<open>2^64\<close>, and the unguarded remainder by it is a division by zero.
\<close>

theorem idempotence_fails_at_zero_modulus:
  "0 < sint (4611686018427387904 :: UInt64)
   \<and> ToStartOfTransform Millisecond 0 4611686018427387904 5 = Inl DivisionByZero
   \<and> \<not> idempotent_at Millisecond 0 4611686018427387904 5"
  by (simp add: eval_defs)

text \<open>
  Wherever the primitive returns, its result is a fixed point: the result is a
  multiple of the modulus on the unsigned reading.  The branch for an input scale
  at most the native one always returns for a positive \<open>delta\<close>; the other one
  returns unless its modulus wraps to 0.
\<close>

lemma idempotent_where_modulus_nonzero:
  assumes d: "0 < sint delta"
    and nz: "scale \<le> DEF_SCALE_of kind \<or>
             \<not> 2 ^ 64 dvd sint delta * 10 ^ (unat scale - unat (DEF_SCALE_of kind))"
  shows "idempotent_at kind t delta scale"
proof (cases "scale \<le> DEF_SCALE_of kind")
  case True
  have dnz: "delta \<noteq> 0"
    using d by (rule positive_nonzero)
  show ?thesis
    using True dnz
    by (simp add: idempotent_at_def result_scale_def ToStart_le minus_remainder_def floor_aligned)
next
  case False
  define m :: "64 word" where "m = delta * 10 ^ (unat scale - unat (DEF_SCALE_of kind))"
  have "\<not> 2 ^ 64 dvd sint delta * 10 ^ (unat scale - unat (DEF_SCALE_of kind))"
    using nz False by simp
  then have "m \<noteq> 0"
    unfolding m_def by (rule modulus_nonzero)
  then show ?thesis
    using False
    by (simp add: idempotent_at_def result_scale_def ToStart_gt minus_remainder_def floor_aligned
        flip: m_def)
qed

lemma idempotent_where_modulus_nonzero_example:
  "0 < sint (2 :: UInt64) \<and> idempotent_at Millisecond (- 1500) 2 6"
  using idempotent_where_modulus_nonzero
    [where delta = 2 and scale = 6 and kind = Millisecond and t = "- 1500"]
  by simp

text \<open>
  C5.  Addition/truncation consistency asks that an aligned start advanced by one
  window is again a fixed point of truncation.  The code breaks it before the
  epoch: with windows of 3 milliseconds at the native scale, \<open>t = -1\<close> truncates to
  \<open>-1\<close> (the unsigned pattern \<open>2^64 - 1\<close> is a multiple of 3), one window later is
  \<open>2\<close>, and \<open>2\<close> truncates to \<open>0\<close>.
\<close>

theorem consistency_fails_before_epoch:
  "ToStartOfTransform Millisecond (- 1) 3 3 = Inr (- 1)
   \<and> AddTime Millisecond (- 1) 3 3 = 2
   \<and> ToStartOfTransform Millisecond 2 3 3 = Inr 0
   \<and> \<not> consistent_at Millisecond (- 1) 3 3"
  by (simp add: eval_defs)

text \<open>
  Away from the epoch crossing the property holds: for a timestamp \<open>t \<ge> 0\<close> whose
  value and window width in the scale of the result fit in \<open>Int64\<close>, the start
  advanced by one window is a fixed point of truncation.
\<close>

lemma aligned_step:
  fixes r m :: "64 word"
  assumes "uint r + uint m < 2 ^ 64"
  shows "((r - r mod m) + m) mod m = 0"
proof -
  define a where "a = r - r mod m"
  have "0 \<le> uint (r mod m)"
    by simp
  then have "0 \<le> uint r mod uint m"
    by (simp only: uint_mod_distrib)
  moreover have "uint a = uint r - uint r mod uint m"
    unfolding a_def by (rule uint_floor)
  ultimately have le: "uint a \<le> uint r"
    by linarith
  then have "uint a + uint m < 2 ^ LENGTH(64)"
    using assms by simp
  then have "uint (a + m) = uint a + uint m"
    by (simp only: uint_add_lem)
  then have "uint ((a + m) mod m) = (uint a + uint m) mod uint m"
    by (simp only: uint_mod_distrib)
  also have "\<dots> = uint (a mod m)"
    by (simp add: uint_mod_distrib)
  also have "\<dots> = 0"
    by (simp add: a_def floor_aligned)
  finally show ?thesis
    by (simp add: word_uint_eq_iff a_def)
qed

lemma AddTime_result_scale:
  "AddTime kind r delta (result_scale kind scale) =
     (if scale \<le> DEF_SCALE_of kind then r + delta
      else r + delta * 10 ^ (unat scale - unat (DEF_SCALE_of kind)))"
proof (cases "scale \<le> DEF_SCALE_of kind")
  case True
  then show ?thesis
    by (simp add: AddTime_def ADD_SUBSECONDS_def result_scale_def scaleMultiplier_def)
next
  case False
  then have "DEF_SCALE_of kind \<le> scale"
    by simp
  then show ?thesis
    using False
    by (simp add: AddTime_def ADD_SUBSECONDS_def result_scale_def scaleMultiplier_sub)
qed

lemma ToStart_result_scale:
  "ToStartOfTransform kind x delta (result_scale kind scale) =
     (if scale \<le> DEF_SCALE_of kind then (if delta = 1 then Inr x else minus_remainder x delta)
      else minus_remainder x (delta * 10 ^ (unat scale - unat (DEF_SCALE_of kind))))"
  by (simp add: result_scale_def ToStart_le ToStart_gt)

lemma consistent_after_epoch:
  assumes d: "0 < sint delta" and t: "0 \<le> sint t"
    and hi: "rescaled kind t scale < 2 ^ 63"
    and w: "width kind delta scale < 2 ^ 63"
  shows "consistent_at kind t delta scale"
proof (cases "scale \<le> DEF_SCALE_of kind")
  case True
  define k where "k = unat (DEF_SCALE_of kind) - unat scale"
  define val :: "64 word" where "val = t * 10 ^ k"
  have nz: "delta \<noteq> 0" and ud: "uint delta = sint delta"
    using d by (rule positive_nonzero)+
  have T: "rescaled kind t scale = sint t * 10 ^ k"
    using True by (simp add: rescaled_def k_def)
  have "0 \<le> sint t * 10 ^ k"
    using t by simp
  moreover have "- (2 ^ 63) \<le> (0 :: int)"
    by simp
  ultimately have lo: "- (2 ^ 63) \<le> sint t * 10 ^ k"
    by (rule order_trans [rotated])
  have sv: "sint val = sint t * 10 ^ k"
    unfolding val_def using lo hi [unfolded T] by (rule sint_product)
  then have "uint val = sint t * 10 ^ k"
    using t by (simp add: uint_eq_sint)
  then have "uint val + uint delta < 2 ^ 64"
    using hi [unfolded T] sint_bounds(2) [of delta] ud by simp
  then have "((val - val mod delta) + delta) mod delta = 0"
    by (rule aligned_step)
  then show ?thesis
    using True nz
    by (simp add: consistent_at_def ToStart_le AddTime_result_scale ToStart_result_scale
        minus_remainder_def flip: k_def val_def)
next
  case False
  define k where "k = unat scale - unat (DEF_SCALE_of kind)"
  define m :: "64 word" where "m = delta * 10 ^ k"
  have W: "width kind delta scale = sint delta * 10 ^ k"
    using False by (simp add: width_def k_def)
  have "sint delta * 10 ^ k < 2 ^ 64"
    using w [unfolded W] by simp
  with d have um: "uint m = sint delta * 10 ^ k"
    unfolding m_def by (rule uint_product)
  have "0 < sint delta * 10 ^ k"
    using d by simp
  then have nz: "m \<noteq> 0"
    using um by auto
  have "uint t = sint t"
    using t by (rule uint_eq_sint)
  then have "uint t + uint m < 2 ^ 64"
    using w [unfolded W] um sint_bounds(2) [of t] by simp
  then have "((t - t mod m) + m) mod m = 0"
    by (rule aligned_step)
  then show ?thesis
    using False nz
    by (simp add: consistent_at_def ToStart_gt AddTime_result_scale ToStart_result_scale
        minus_remainder_def flip: k_def m_def)
qed

lemma consistent_after_epoch_example: "consistent_at Millisecond 1620000123456789 500 6"
  using consistent_after_epoch
    [where delta = 500 and t = 1620000123456789 and kind = Millisecond and scale = 6]
  by (simp add: rescaled_def width_def)

section \<open>The window function family\<close>

lemma as_column_Inl: "as_column make (Inl e) = Inl e"
  by (simp add: as_column_def)

lemma as_column_Inr: "as_column make (Inr x) = Inr (make x)"
  by (simp add: as_column_def)

lemma decode_WindowId: "(\<lambda>i. f (decode i)) \<circ> WindowId = f"
  by (rule ext) simp

lemmas family_defs = tumble_windows_def hop_windows_def check_interval_def tumble_row_def
  hop_row_def subsecond_truncate_def subsecond_add_def through_window_id_def
  as_column_Inl as_column_Inr

text \<open>
  C8.  The claim asks that a window size which is zero or negative is rejected
  before any row is evaluated, so that the truncation primitives never take a
  remainder by zero.  The code breaks the conclusion: a window of \<open>2^61\<close>
  microseconds is positive and passes the check, and on a column of scale 9 the
  modulus \<open>2^61 * 1000\<close> of the finer-scale branch wraps to 0 modulo \<open>2^64\<close>, so
  the primitive takes a remainder by zero, called directly or through the family.
\<close>

theorem validated_call_divides_by_zero:
  "0 < sint (2305843009213693952 :: Int64)
   \<and> check_interval 2305843009213693952 = Inr 2305843009213693952
   \<and> ToStartOfTransform Microsecond 1620000123456789 2305843009213693952 9 = Inl DivisionByZero
   \<and> dispatchForColumns (subsecond_truncate Microsecond 9) (subsecond_add Microsecond 9)
       TUMBLE_START (TimeInterval [1620000123456789] 2305843009213693952) = Inl DivisionByZero"
  by (simp add: family_defs eval_defs)

text \<open>
  The part of the claim about the check holds in the specification's account of the
  family: a window size that is zero or negative is a user error whatever the rows
  and the primitives are.
\<close>

lemma non_positive_interval_rejected:
  "sint interval \<le> 0 \<Longrightarrow> name \<in> {TUMBLE, TUMBLE_START, TUMBLE_END, WINDOW_ID} \<Longrightarrow>
     dispatchForColumns tr ad name (TimeInterval ts interval) = Inl NonPositiveInterval"
  "sint hop \<le> 0 \<or> sint window \<le> 0 \<Longrightarrow> name' \<in> {HOP, HOP_START, HOP_END, WINDOW_ID} \<Longrightarrow>
     dispatchForColumns tr ad name' (TimeHopWindow ts hop window) = Inl NonPositiveInterval"
  by (auto simp: tumble_windows_def hop_windows_def check_interval_def as_column_Inl)

text \<open>
  The primitives are only consulted at a checked, positive size: two pairs of
  primitives that agree at every positive \<open>delta\<close> give the same result for every
  name and every argument list, whatever they do at \<open>delta \<le> 0\<close>.
\<close>

lemma windows_cong:
  assumes tr: "\<And>d t. 0 < sint d \<Longrightarrow> tr d t = tr' d t"
    and ad: "\<And>d t. 0 < sint d \<Longrightarrow> ad d t = ad' d t"
  shows "tumble_windows tr ad ts interval = tumble_windows tr' ad' ts interval"
    and "hop_windows tr ad ts hop window = hop_windows tr' ad' ts hop window"
proof -
  have "tumble_row tr ad d = tumble_row tr' ad' d" if "0 < sint d" for d
    using that by (intro ext) (simp add: tumble_row_def tr ad split: sum.splits)
  then show "tumble_windows tr ad ts interval = tumble_windows tr' ad' ts interval"
    by (simp add: tumble_windows_def check_interval_def)
  have "hop_row tr ad h w = hop_row tr' ad' h w" if "0 < sint h" "0 < sint w" for h w
    using that by (intro ext) (simp add: hop_row_def tr ad split: sum.splits)
  then show "hop_windows tr ad ts hop window = hop_windows tr' ad' ts hop window"
    by (simp add: hop_windows_def check_interval_def)
qed

lemma primitives_only_at_positive_delta:
  assumes tr: "\<And>d t. 0 < sint d \<Longrightarrow> tr d t = tr' d t"
    and ad: "\<And>d t. 0 < sint d \<Longrightarrow> ad d t = ad' d t"
  shows "dispatchForColumns tr ad name args = dispatchForColumns tr' ad' name args"
  using windows_cong [of tr tr' ad ad', OF tr ad]
  by (cases name; cases args) simp_all

text \<open>
  With a positive \<open>delta\<close> the branch computing \<open>val mod delta\<close> always returns.
\<close>

lemma coarse_branch_returns:
  assumes "0 < sint delta" and "scale \<le> DEF_SCALE_of kind"
  shows "\<exists>r. ToStartOfTransform kind t delta scale = Inr r"
  using assms(2) positive_nonzero(1) [OF assms(1)] by (simp add: ToStart_le minus_remainder_def)

text \<open>
  C9.  Window-id round trip.  For every batch of timestamps and every interval
  argument, and whatever the truncation and addition primitives are, handing the
  window id computed from the raw arguments to \<open>TUMBLE_START\<close> gives what
  \<open>TUMBLE_START\<close> gives on the raw arguments, and likewise for \<open>TUMBLE_END\<close>,
  \<open>HOP_START\<close> and \<open>HOP_END\<close>: the bound is decoded from the id, and an error of
  the raw call is the same error through the id.
\<close>

theorem window_id_round_trip:
  "through_window_id tr ad TUMBLE_START (TimeInterval ts interval) =
     dispatchForColumns tr ad TUMBLE_START (TimeInterval ts interval)
   \<and> through_window_id tr ad TUMBLE_END (TimeInterval ts interval) =
     dispatchForColumns tr ad TUMBLE_END (TimeInterval ts interval)
   \<and> through_window_id tr ad HOP_START (TimeHopWindow ts hop window) =
     dispatchForColumns tr ad HOP_START (TimeHopWindow ts hop window)
   \<and> through_window_id tr ad HOP_END (TimeHopWindow ts hop window) =
     dispatchForColumns tr ad HOP_END (TimeHopWindow ts hop window)"
proof -
  have tumble: "through_window_id tr ad b (TimeInterval ts interval) =
      as_column (\<lambda>ws. Bounds (map f ws)) (tumble_windows tr ad ts interval)"
    if "\<And>ids. dispatchForColumns tr ad b (PreviousId ids) =
          Inr (Bounds (map (\<lambda>i. f (decode i)) ids))"
    for b and f :: "'a \<times> 'a \<Rightarrow> 'a"
    by (cases "tumble_windows tr ad ts interval")
      (simp_all add: through_window_id_def as_column_Inl as_column_Inr that decode_WindowId)
  have hop: "through_window_id tr ad b (TimeHopWindow ts hop window) =
      as_column (\<lambda>ws. Bounds (map f ws)) (hop_windows tr ad ts hop window)"
    if "\<And>ids. dispatchForColumns tr ad b (PreviousId ids) =
          Inr (Bounds (map (\<lambda>i. f (decode i)) ids))"
    for b and f :: "'a \<times> 'a \<Rightarrow> 'a"
    by (cases "hop_windows tr ad ts hop window")
      (simp_all add: through_window_id_def as_column_Inl as_column_Inr that decode_WindowId)
  show ?thesis
    by (simp add: tumble [of _ fst] tumble [of _ snd] hop [of _ fst] hop [of _ snd])
qed

text \<open>
  The round trip on the primitives of this header: a microsecond column, windows of
  500 milliseconds.
\<close>

lemma window_id_round_trip_example:
  "through_window_id (subsecond_truncate Millisecond 6) (subsecond_add Millisecond 6) TUMBLE_END
     (TimeInterval [1620000123456789, 1500] 500) = Inr (Bounds [1620000123500000, 500000])"
  by (simp add: family_defs eval_defs)

end
